theory Spec2Isabelle
  imports Main "HOL-Library.Sublist"
begin

section \<open>Data model (types.ts)\<close>

text \<open>
  The interfaces of \<^verbatim>\<open>types.ts\<close>. Every interface has a field \<^verbatim>\<open>id\<close>, and
  several share \<^verbatim>\<open>imageUrl\<close> and \<^verbatim>\<open>isGenerating\<close>; record fields live in one
  name space, so the fields carry the initial of their interface where they would clash.
  Optional fields (\<^verbatim>\<open>dialogue?\<close>, \<^verbatim>\<open>imageUrl?\<close>, \<^verbatim>\<open>isGenerating?\<close>) are options.
  A \<^verbatim>\<open>number\<close> that the schema declares INTEGER is an \<open>int\<close>.
\<close>

record Character =
  c_id :: string
  c_name :: string
  c_appearance :: string

record Scene =
  s_id :: string
  sceneNumber :: int
  location :: string
  timeOfDay :: string
  action :: string
  dialogue :: "string option"
  visualPrompt :: string
  s_imageUrl :: "string option"
  s_isGenerating :: "bool option"

record Page =
  p_id :: string
  pageNumber :: int
  scenes :: "Scene list"
  imageUrl :: "string option"
  isGenerating :: "bool option"
  pageLayoutDescription :: string

record StoryboardData =
  title :: string
  characters :: "Character list"
  pages :: "Page list"

record DevelopedStory =
  story :: string
  screenplay :: string

section \<open>The generation service boundary\<close>

text \<open>
  Exceptions are values. \<open>Error\<close> is what the code itself throws or what the service call
  rejects with; \<open>TypeError\<close> and \<open>SyntaxError\<close> are raised by the JavaScript engine (a
  property read on \<^verbatim>\<open>undefined\<close>, a failed \<^verbatim>\<open>JSON.parse\<close>). The wording of an
  engine message is the engine's own; no property below depends on it.
\<close>

datatype error = Error string | TypeError string | SyntaxError string

fun message :: "error \<Rightarrow> string" where
  "message (Error m) = m"
| "message (TypeError m) = m"
| "message (SyntaxError m) = m"

text \<open>
  The request and the response of \<^verbatim>\<open>ai.models.generateContent\<close>, as far as the code
  reads them: the response's \<^verbatim>\<open>text\<close> (absent when the reply has no text), and
  \<^verbatim>\<open>candidates[..].content.parts[..].inlineData.data\<close>. The array of candidates may
  be empty; a candidate is taken with its content and parts present. An awaited call
  is modelled by how it settles: with a response, or with the error it rejects with.
\<close>

datatype Config = ResponseJson "string list" | ImageConfig string

record GenerateContentParameters =
  model :: string
  contents :: string
  config :: Config

record Blob =
  blob_data :: string

record Part =
  part_text :: "string option"
  inlineData :: "Blob option"

record Candidate =
  content_parts :: "Part list"

record GenerateContentResponse =
  response_text :: "string option"
  candidates :: "Candidate list"

type_synonym GenerateContent = "GenerateContentParameters \<Rightarrow> error + GenerateContentResponse"

section \<open>String helpers of the platform\<close>

text \<open>\<^verbatim>\<open>Array.prototype.join\<close> on an array of strings.\<close>

fun join :: "string \<Rightarrow> string list \<Rightarrow> string" where
  "join sep [] = []"
| "join sep [x] = x"
| "join sep (x # y # ys) = x @ sep @ join sep (y # ys)"

text \<open>
  What a template literal prints for an integer-valued \<^verbatim>\<open>number\<close>: its decimal
  digits, with a minus sign below zero (values below \<open>10\<^sup>2\<^sup>1\<close> in magnitude).
\<close>

definition digit_char :: "nat \<Rightarrow> char" where
  "digit_char d = ''0123456789'' ! d"

fun digits :: "nat \<Rightarrow> string" where
  "digits n = (if n < 10 then [digit_char n] else digits (n div 10) @ [digit_char (n mod 10)])"

declare digits.simps [simp del]

definition toString :: "int \<Rightarrow> string" where
  "toString i = (if i < 0 then CHR ''-'' # digits (nat (- i)) else digits (nat i))"

section \<open>JSON values and JSON.parse\<close>

text \<open>
  \<^verbatim>\<open>JSON.parse\<close> is the platform's; the model follows the JSON grammar (ECMA-404):
  objects, arrays, strings, numbers, \<^verbatim>\<open>true\<close>, \<^verbatim>\<open>false\<close>, \<^verbatim>\<open>null\<close>, with
  white space between the tokens, and \<open>None\<close> where \<^verbatim>\<open>JSON.parse\<close> throws its
  SyntaxError. An object keeps its members in the order of the text. A number keeps
  its literal, since no code here computes with a parsed number. Strings are byte
  strings, so a Unicode escape (backslash, \<open>u\<close>, four hexadecimal digits) is checked and
  kept as it is written.
\<close>

datatype json = JNull | JBool bool | JNumber string | JString string
  | JArray "json list" | JObject "(string \<times> json) list"


definition is_ws :: "char \<Rightarrow> bool" where
  "is_ws c = (c = CHR '' '' \<or> c = CHR 0x09 \<or> c = CHR 0x0A \<or> c = CHR 0x0D)"

definition skip_ws :: "string \<Rightarrow> string" where
  "skip_ws = dropWhile is_ws"

definition is_digit :: "char \<Rightarrow> bool" where
  "is_digit c = (c \<in> set ''0123456789'')"

definition is_hex :: "char \<Rightarrow> bool" where
  "is_hex c = (c \<in> set ''0123456789abcdefABCDEF'')"

definition unescape :: "char \<Rightarrow> char option" where
  "unescape e =
     (if e = CHR 0x22 \<or> e = CHR 0x5C \<or> e = CHR ''/'' then Some e
      else if e = CHR ''b'' then Some (CHR 0x08)
      else if e = CHR ''f'' then Some (CHR 0x0C)
      else if e = CHR ''n'' then Some (CHR 0x0A)
      else if e = CHR ''r'' then Some (CHR 0x0D)
      else if e = CHR ''t'' then Some (CHR 0x09)
      else None)"

text \<open>The characters of a string literal after its opening quote, up to the closing one.\<close>

fun parse_chars :: "string \<Rightarrow> (string \<times> string) option" where
  "parse_chars [] = None"
| "parse_chars (c # cs) =
     (if c = CHR 0x22 then Some ([], cs)
      else if c = CHR 0x5C then
        (case cs of
           [] \<Rightarrow> None
         | e # rest \<Rightarrow>
             if e = CHR ''u'' then
               (if 4 \<le> length rest \<and> list_all is_hex (take 4 rest)
                then map_option (apfst (\<lambda>s. [c, e] @ take 4 rest @ s)) (parse_chars (drop 4 rest))
                else None)
             else
               (case unescape e of
                  None \<Rightarrow> None
                | Some x \<Rightarrow> map_option (apfst ((#) x)) (parse_chars rest)))
      else if (of_char c :: nat) < 32 then None
      else map_option (apfst ((#) c)) (parse_chars cs))"

text \<open>A number literal: sign, integer part without a leading zero, fraction, exponent.\<close>

definition parse_digits :: "string \<Rightarrow> (string \<times> string) option" where
  "parse_digits s =
     (if takeWhile is_digit s = [] then None
      else Some (takeWhile is_digit s, dropWhile is_digit s))"

definition parse_int_part :: "string \<Rightarrow> (string \<times> string) option" where
  "parse_int_part s =
     (case s of
        [] \<Rightarrow> None
      | d # r \<Rightarrow> if d = CHR ''0'' then Some ([d], r) else parse_digits s)"

definition parse_frac :: "string \<Rightarrow> (string \<times> string) option" where
  "parse_frac s =
     (case s of
        [] \<Rightarrow> Some ([], s)
      | d # r \<Rightarrow>
          if d = CHR ''.'' then map_option (apfst ((#) d)) (parse_digits r) else Some ([], s))"

definition parse_exp :: "string \<Rightarrow> (string \<times> string) option" where
  "parse_exp s =
     (case s of
        [] \<Rightarrow> Some ([], s)
      | e # r \<Rightarrow>
          if e = CHR ''e'' \<or> e = CHR ''E'' then
            (case r of
               [] \<Rightarrow> None
             | g # r' \<Rightarrow>
                 if g = CHR ''+'' \<or> g = CHR ''-''
                 then map_option (apfst (\<lambda>ds. e # g # ds)) (parse_digits r')
                 else map_option (apfst ((#) e)) (parse_digits r))
          else Some ([], s))"

definition parse_number :: "string \<Rightarrow> (string \<times> string) option" where
  "parse_number s =
     (let (sign, s1) = (case s of [] \<Rightarrow> ([], s) | c # r \<Rightarrow> if c = CHR ''-'' then ([c], r) else ([], s))
      in case parse_int_part s1 of
           None \<Rightarrow> None
         | Some (ip, s2) \<Rightarrow>
             (case parse_frac s2 of
                None \<Rightarrow> None
              | Some (fp, s3) \<Rightarrow>
                  (case parse_exp s3 of
                     None \<Rightarrow> None
                   | Some (ep, s4) \<Rightarrow> Some (sign @ ip @ fp @ ep, s4))))"

text \<open>
  A value, the elements of an array after its first bracket, the members of an object
  after its first brace. Each takes its text with the white space before it removed and
  returns the rest of the text. The tests on the length of a returned rest make the
  recursion well-founded; they let every parse through (\<open>parse_elements_unguarded\<close>,
  \<open>parse_members_unguarded\<close> below).
\<close>

function parse_value :: "string \<Rightarrow> (json \<times> string) option"
  and parse_elements :: "string \<Rightarrow> (json list \<times> string) option"
  and parse_members :: "string \<Rightarrow> ((string \<times> json) list \<times> string) option"
where
  "parse_value s =
     (case s of
        [] \<Rightarrow> None
      | c # cs \<Rightarrow>
          if c = CHR ''{'' then
            (case skip_ws cs of
               [] \<Rightarrow> None
             | d # ds \<Rightarrow>
                 if d = CHR ''}'' then Some (JObject [], ds)
                 else map_option (apfst JObject) (parse_members (d # ds)))
          else if c = CHR ''['' then
            (case skip_ws cs of
               [] \<Rightarrow> None
             | d # ds \<Rightarrow>
                 if d = CHR '']'' then Some (JArray [], ds)
                 else map_option (apfst JArray) (parse_elements (d # ds)))
          else if c = CHR 0x22 then map_option (apfst JString) (parse_chars cs)
          else if take 4 s = ''true'' then Some (JBool True, drop 4 s)
          else if take 5 s = ''false'' then Some (JBool False, drop 5 s)
          else if take 4 s = ''null'' then Some (JNull, drop 4 s)
          else map_option (apfst JNumber) (parse_number s))"
| "parse_elements s =
     (case parse_value s of
        None \<Rightarrow> None
      | Some (v, r) \<Rightarrow>
          if length r < length s then
            (case skip_ws r of
               [] \<Rightarrow> None
             | d # ds \<Rightarrow>
                 if d = CHR '','' then
                   map_option (apfst ((#) v)) (parse_elements (skip_ws ds))
                 else if d = CHR '']'' then Some ([v], ds)
                 else None)
          else None)"
| "parse_members s =
     (case s of
        [] \<Rightarrow> None
      | q # cs \<Rightarrow>
          if q = CHR 0x22 then
            (case parse_chars cs of
               None \<Rightarrow> None
             | Some (k, r1) \<Rightarrow>
                 if length r1 \<le> length cs then
                   (case skip_ws r1 of
                      [] \<Rightarrow> None
                    | d # ds \<Rightarrow>
                        if d = CHR '':'' then
                          (case parse_value (skip_ws ds) of
                             None \<Rightarrow> None
                           | Some (v, r2) \<Rightarrow>
                               if length r2 < length (skip_ws ds) then
                                 (case skip_ws r2 of
                                    [] \<Rightarrow> None
                                  | e # es \<Rightarrow>
                                      if e = CHR '','' then
                                        map_option (apfst ((#) (k, v))) (parse_members (skip_ws es))
                                      else if e = CHR ''}'' then Some ([(k, v)], es)
                                      else None)
                               else None)
                        else None)
                 else None)
          else None)"
  by pat_completeness auto
termination
proof (relation "measures
    [\<lambda>x. length (case x of Inl s \<Rightarrow> s | Inr (Inl s) \<Rightarrow> s | Inr (Inr s) \<Rightarrow> s),
     \<lambda>x. case x of Inl _ \<Rightarrow> 0 | Inr _ \<Rightarrow> Suc 0]", goal_cases)
  case 1 show ?case by simp
next
  case (2 s c cs d ds)
  have "length (skip_ws cs) \<le> length cs" by (simp add: skip_ws_def length_dropWhile_le)
  with 2 show ?case by simp
next
  case (3 s c cs d ds)
  have "length (skip_ws cs) \<le> length cs" by (simp add: skip_ws_def length_dropWhile_le)
  with 3 show ?case by simp
next
  case (4 s) show ?case by simp
next
  case (5 s x v r d ds)
  have "length (skip_ws r) \<le> length r" "length (skip_ws ds) \<le> length ds"
    by (simp_all add: skip_ws_def length_dropWhile_le)
  with 5 show ?case by simp
next
  case (6 s q cs x k r1 d ds)
  have "length (skip_ws r1) \<le> length r1" "length (skip_ws ds) \<le> length ds"
    by (simp_all add: skip_ws_def length_dropWhile_le)
  with 6 show ?case by simp
next
  case (7 s q cs x k r1 d ds y v r2 e es)
  have "length (skip_ws r1) \<le> length r1" "length (skip_ws ds) \<le> length ds"
    "length (skip_ws r2) \<le> length r2" "length (skip_ws es) \<le> length es"
    by (simp_all add: skip_ws_def length_dropWhile_le)
  with 7 show ?case by simp
qed

declare parse_value.simps [simp del] parse_elements.simps [simp del] parse_members.simps [simp del]

definition JSON_parse :: "string \<Rightarrow> json option" where
  "JSON_parse s =
     (case parse_value (skip_ws s) of
        None \<Rightarrow> None
      | Some (v, r) \<Rightarrow> if skip_ws r = [] then Some v else None)"

text \<open>Reading a parsed value: a property, the elements of an array, an integer.\<close>

fun property :: "string \<Rightarrow> json \<Rightarrow> json option" where
  "property k (JObject kvs) = map_of (rev kvs) k"
| "property k _ = None"

fun elements :: "json \<Rightarrow> json list option" where
  "elements (JArray vs) = Some vs"
| "elements _ = None"

definition digit_value :: "char \<Rightarrow> nat" where
  "digit_value c = length (takeWhile (\<lambda>d. d \<noteq> c) ''0123456789'')"

definition nat_of_digits :: "string \<Rightarrow> nat" where
  "nat_of_digits ds = foldl (\<lambda>n c. 10 * n + digit_value c) 0 ds"

fun integerValue :: "json \<Rightarrow> int option" where
  "integerValue (JNumber lit) =
     (case lit of
        [] \<Rightarrow> None
      | c # cs \<Rightarrow>
          if c = CHR ''-'' then
            (if cs \<noteq> [] \<and> list_all is_digit cs then Some (- int (nat_of_digits cs)) else None)
          else if list_all is_digit lit then Some (int (nat_of_digits lit))
          else None)"
| "integerValue _ = None"

section \<open>Page Illustrator (generatePageImage)\<close>

definition characterContext :: "Character list \<Rightarrow> string" where
  "characterContext allCharacters =
     join ''. '' (map (\<lambda>c. c_name c @ '': '' @ c_appearance c) allCharacters)"

definition panelPrompt :: "Scene \<Rightarrow> string" where
  "panelPrompt s =
     ''Panel '' @ toString (sceneNumber s) @ '': '' @ visualPrompt s @ ''. Beat: '' @ action s"

definition scenesPrompts :: "Page \<Rightarrow> string" where
  "scenesPrompts page = join ''. '' (map panelPrompt (scenes page))"

definition gridLine :: "Page \<Rightarrow> string" where
  "gridLine page =
     ''GRID: '' @ toString (int (length (scenes page))) @
     '' panels, reading strictly LEFT-TO-RIGHT, TOP-TO-BOTTOM (row by row).''"

definition styleLine :: string where
  "styleLine =
     ''STYLE: Rough director's ink sketch. Stark black lines on white paper. No colors, no gray tones. High technical contrast. ''"

definition fullPrompt :: "Page \<Rightarrow> Character list \<Rightarrow> string" where
  "fullPrompt page allCharacters =
     ''Cinematic Technical Storyboard Page. \<newline>  Vertical 3:4 Manga Layout. \<newline>  '' @
     gridLine page @ ''\<newline>  CHARACTERS: '' @ characterContext allCharacters @
     '' (Minimalist drafting mannequins). \<newline>  PANEL CONTENT: '' @ scenesPrompts page @
     ''. \<newline>  '' @ styleLine @
     ''\<newline>  FOCUS: Anatomy blocking, camera perspective (Wide, Medium, Close-up), and environmental spatial logic.''"

definition imageRequest :: "Page \<Rightarrow> Character list \<Rightarrow> GenerateContentParameters" where
  "imageRequest page allCharacters =
     \<lparr>model = ''gemini-2.5-flash-image'', contents = fullPrompt page allCharacters,
      config = ImageConfig ''3:4''\<rparr>"

text \<open>
  The scan \<^verbatim>\<open>for (const part of ...) if (part.inlineData) { imageUrl = ...; break; }\<close>,
  started with \<^verbatim>\<open>imageUrl = ""\<close>.
\<close>

fun scanParts :: "Part list \<Rightarrow> string" where
  "scanParts [] = ''''"
| "scanParts (part # rest) =
     (case inlineData part of
        Some b \<Rightarrow> ''data:image/png;base64,'' @ blob_data b
      | None \<Rightarrow> scanParts rest)"

text \<open>
  What follows the awaited call. \<^verbatim>\<open>response.candidates[0]\<close> of an empty array is
  \<^verbatim>\<open>undefined\<close>, and reading \<^verbatim>\<open>.content\<close> from it raises a TypeError.
\<close>

definition imageOfResponse :: "GenerateContentResponse \<Rightarrow> error + string" where
  "imageOfResponse response =
     (case candidates response of
        [] \<Rightarrow> Inl (TypeError ''Cannot read properties of undefined (reading 'content')'')
      | c # _ \<Rightarrow>
          (let imageUrl = scanParts (content_parts c)
           in if imageUrl = '''' then Inl (Error ''Drafting system error.'') else Inr imageUrl))"

definition generatePageImage :: "GenerateContent \<Rightarrow> Page \<Rightarrow> Character list \<Rightarrow> error + string" where
  "generatePageImage generateContent page allCharacters =
     (case generateContent (imageRequest page allCharacters) of
        Inl err \<Rightarrow> Inl err
      | Inr response \<Rightarrow> imageOfResponse response)"

section \<open>Concept Developer and Storyboard Structurer\<close>

text \<open>The double quote, which a string literal of the theory cannot hold.\<close>

definition quoted :: "string \<Rightarrow> string" where
  "quoted s = CHR 0x22 # s @ [CHR 0x22]"

definition conceptPrompt :: "string \<Rightarrow> int \<Rightarrow> string" where
  "conceptPrompt idea targetPanels =
     ''You are a world-class cinematic director and screenplay logic engine. \<newline>    TASK:\<newline>    1. Expand the SEED IDEA into a compelling narrative summary.\<newline>    2. Write an EXHAUSTIVE SCREENPLAY containing exactly '' @
     toString targetPanels @
     '' distinct, sequential beats. \<newline>       CRITICAL: Each beat must be a specific visual action or camera moment. \<newline>       The flow must be perfectly natural with no gaps in time or logic. \<newline>       Keep actions simple but descriptive enough for visual drafting.\<newline>    \<newline>    SEED IDEA:\<newline>    '' @
     idea"

definition conceptRequest :: "string \<Rightarrow> int \<Rightarrow> GenerateContentParameters" where
  "conceptRequest idea targetPanels =
     \<lparr>model = ''gemini-3-pro-preview'', contents = conceptPrompt idea targetPanels,
      config = ResponseJson [''story'', ''screenplay'']\<rparr>"

definition storyboardPrompt :: "string \<Rightarrow> int \<Rightarrow> int \<Rightarrow> string" where
  "storyboardPrompt text numPages numPanelsPerPage =
     ''You are a professional storyboard layout artist.\<newline>    TASK:\<newline>    1. CHARACTER DESIGN: Use minimalist silhouettes or featureless mannequins with one identifier (e.g., '' @
     quoted ''Silhouette A'' @ '', '' @ quoted ''Mannequin with hat'' @
     '').\<newline>    2. STRUCTURE: Break the screenplay into EXACTLY '' @ toString numPages @
     '' PAGES.\<newline>    3. DENSITY: Each PAGE MUST contain EXACTLY '' @ toString numPanelsPerPage @
     '' sequential PANELS.\<newline>    4. GRID ORDER: Panels must be organized for a grid layout that reads strictly LEFT-TO-RIGHT then NEXT ROW. \<newline>       - Panel 1 is top-left.\<newline>       - Panel 2 is to its right.\<newline>       - Continue until row end, then move down to the next row starting from the left.\<newline>    \<newline>    SCREENPLAY TEXT:\<newline>    '' @
     text"

definition storyboardRequest :: "string \<Rightarrow> int \<Rightarrow> int \<Rightarrow> GenerateContentParameters" where
  "storyboardRequest text numPages numPanelsPerPage =
     \<lparr>model = ''gemini-3-pro-preview'', contents = storyboardPrompt text numPages numPanelsPerPage,
      config = ResponseJson [''title'', ''characters'', ''pages'']\<rparr>"

text \<open>
  \<^verbatim>\<open>response.text || "{}"\<close>: the text of the response, and \<^verbatim>\<open>"{}"\<close> in its place
  when it is absent or the empty string.
\<close>

definition textOrEmptyObject :: "GenerateContentResponse \<Rightarrow> string" where
  "textOrEmptyObject response =
     (case response_text response of
        None \<Rightarrow> ''{}''
      | Some t \<Rightarrow> if t = [] then ''{}'' else t)"

text \<open>\<^verbatim>\<open>JSON.parse\<close> with its exception as a value.\<close>

definition parseOrThrow :: "string \<Rightarrow> error + json" where
  "parseOrThrow s =
     (case JSON_parse s of
        None \<Rightarrow> Inl (SyntaxError ''Unexpected token in JSON'')
      | Some v \<Rightarrow> Inr v)"

text \<open>
  Both functions await the call and return \<^verbatim>\<open>JSON.parse(response.text || "{}")\<close>; the
  declared result types are not checked at run time, so the result is the parsed value.
\<close>

definition developStoryConcept :: "GenerateContent \<Rightarrow> string \<Rightarrow> int \<Rightarrow> error + json" where
  "developStoryConcept generateContent idea targetPanels =
     (case generateContent (conceptRequest idea targetPanels) of
        Inl err \<Rightarrow> Inl err
      | Inr response \<Rightarrow> parseOrThrow (textOrEmptyObject response))"

definition generateStoryboardFromText ::
  "GenerateContent \<Rightarrow> string \<Rightarrow> int \<Rightarrow> int \<Rightarrow> error + json" where
  "generateStoryboardFromText generateContent text numPages numPanelsPerPage =
     (case generateContent (storyboardRequest text numPages numPanelsPerPage) of
        Inl err \<Rightarrow> Inl err
      | Inr response \<Rightarrow> parseOrThrow (textOrEmptyObject response))"

section \<open>Orchestrator (App.tsx)\<close>

datatype AppStep = InputStep | DevelopmentStep | StoryboardStep

datatype Mode = Quick | Creative

text \<open>
  What a handler does besides writing state variables, in the order in which it does
  it: the calls of the three generation functions with their arguments, the pause of
  \<^verbatim>\<open>setTimeout\<close>, \<^verbatim>\<open>console.error\<close>, and the three updates of
  \<open>handleGeneratePage\<close> on the pages of one identifier (set the in-progress flag, attach
  an image and clear the flag, clear the flag).
\<close>

datatype Effect =
    DevelopStoryConceptCall string int
  | GenerateStoryboardCall string int int
  | GeneratePageImageCall Page "Character list"
  | Timeout nat
  | ConsoleError error
  | MarkGenerating string
  | AttachImage string string
  | ClearGenerating string

fun isCall :: "Effect \<Rightarrow> bool" where
  "isCall (DevelopStoryConceptCall idea n) = True"
| "isCall (GenerateStoryboardCall text p k) = True"
| "isCall (GeneratePageImageCall page cs) = True"
| "isCall _ = False"

definition callsIssued :: "Effect list \<Rightarrow> nat" where
  "callsIssued es = length (filter isCall es)"

text \<open>
  The three functions that \<^verbatim>\<open>App.tsx\<close> imports, at their declared types. A call
  settles with a value or with an error; the first argument is the number of calls
  issued before it, so that the same request may settle differently at another time.
\<close>

record Services =
  developStoryConceptCall :: "nat \<Rightarrow> string \<Rightarrow> int \<Rightarrow> error + DevelopedStory"
  generateStoryboardCall :: "nat \<Rightarrow> string \<Rightarrow> int \<Rightarrow> int \<Rightarrow> error + StoryboardData"
  generatePageImageCall :: "nat \<Rightarrow> Page \<Rightarrow> Character list \<Rightarrow> error + string"

text \<open>The state variables of the component, and the effects issued so far.\<close>

record App =
  step :: AppStep
  mode :: Mode
  input :: string
  loading :: bool
  developedStory :: "DevelopedStory option"
  data :: "StoryboardData option"
  error :: "string option"
  numPages :: int
  numPanelsPerPage :: int
  zoomedPage :: "string option"
  editingSceneId :: "string option"
  editBuffer :: string
  effects :: "Effect list"

definition emit :: "Effect \<Rightarrow> App \<Rightarrow> App" where
  "emit e st = st\<lparr>effects := effects st @ [e]\<rparr>"




text \<open>\<^verbatim>\<open>err.message || fallback\<close>.\<close>

definition messageOr :: "error \<Rightarrow> string \<Rightarrow> string" where
  "messageOr err fallback = (if message err = [] then fallback else message err)"

text \<open>
  \<^verbatim>\<open>setData(prev => prev ? {...prev, pages: prev.pages.map(f)} : null)\<close>.
\<close>

definition setPages :: "(Page \<Rightarrow> Page) \<Rightarrow> App \<Rightarrow> App" where
  "setPages f st = st\<lparr>data := map_option (\<lambda>prev. prev\<lparr>pages := map f (pages prev)\<rparr>) (data st)\<rparr>"

definition markPage :: "string \<Rightarrow> Page \<Rightarrow> Page" where
  "markPage pageId p = (if p_id p = pageId then p\<lparr>isGenerating := Some True\<rparr> else p)"

definition attachPage :: "string \<Rightarrow> string \<Rightarrow> Page \<Rightarrow> Page" where
  "attachPage pageId url p =
     (if p_id p = pageId then p\<lparr>imageUrl := Some url, isGenerating := Some False\<rparr> else p)"

definition clearPage :: "string \<Rightarrow> Page \<Rightarrow> Page" where
  "clearPage pageId p = (if p_id p = pageId then p\<lparr>isGenerating := Some False\<rparr> else p)"

definition handleGeneratePage :: "Services \<Rightarrow> string \<Rightarrow> StoryboardData option \<Rightarrow> App \<Rightarrow> App" where
  "handleGeneratePage svc pageId currentData st =
     (case (case currentData of Some d \<Rightarrow> Some d | None \<Rightarrow> data st) of
        None \<Rightarrow> st
      | Some activeData \<Rightarrow>
          (let st1 = emit (MarkGenerating pageId) (setPages (markPage pageId) st)
           in case find (\<lambda>p. p_id p = pageId) (pages activeData) of
                None \<Rightarrow> st1
              | Some target \<Rightarrow>
                  (let st2 = emit (GeneratePageImageCall target (characters activeData)) st1
                   in case generatePageImageCall svc (callsIssued (effects st1)) target
                             (characters activeData) of
                        Inr url \<Rightarrow>
                          emit (AttachImage pageId url) (setPages (attachPage pageId url) st2)
                      | Inl err \<Rightarrow>
                          emit (ClearGenerating pageId)
                            (setPages (clearPage pageId) (emit (ConsoleError err) st2)))))"

text \<open>
  The loop of \<open>renderAllPagesSequentially\<close> over the copied array of pages: the pause,
  then the awaited \<open>handleGeneratePage\<close> with the identifier of the page.
\<close>

fun renderPages :: "Services \<Rightarrow> StoryboardData \<Rightarrow> Page list \<Rightarrow> App \<Rightarrow> App" where
  "renderPages svc currentData [] st = st"
| "renderPages svc currentData (p # ps) st =
     renderPages svc currentData ps
       (handleGeneratePage svc (p_id p) (Some currentData) (emit (Timeout 100) st))"

definition renderAllPagesSequentially :: "Services \<Rightarrow> StoryboardData \<Rightarrow> App \<Rightarrow> App" where
  "renderAllPagesSequentially svc currentData st =
     renderPages svc currentData (pages currentData) st"




definition startEditing :: "Scene \<Rightarrow> App \<Rightarrow> App" where
  "startEditing scene st = st\<lparr>editingSceneId := Some (s_id scene), editBuffer := action scene\<rparr>"

text \<open>
  \<open>saveEdit\<close> returns at once when \<^verbatim>\<open>!data || !editingSceneId\<close>: no storyboard, or an
  identifier that is \<^verbatim>\<open>null\<close> or the empty string.
\<close>

definition editScene :: "string \<Rightarrow> string \<Rightarrow> Scene \<Rightarrow> Scene" where
  "editScene sceneId text s = (if s_id s = sceneId then s\<lparr>action := text\<rparr> else s)"

definition saveEdit :: "App \<Rightarrow> App" where
  "saveEdit st =
     (case editingSceneId st of
        None \<Rightarrow> st
      | Some sceneId \<Rightarrow>
          if data st = None \<or> sceneId = [] then st
          else (setPages (\<lambda>p. p\<lparr>scenes := map (editScene sceneId (editBuffer st)) (scenes p)\<rparr>) st)
                 \<lparr>editingSceneId := None\<rparr>)"

text \<open>
  For stating what a run of the loop does. \<open>targetOf\<close> is the page that
  \<^verbatim>\<open>activeData.pages.find(p => p.id === pageId)\<close> selects for the identifier of \<open>p\<close>;
  \<open>pageEffects\<close> lists the effects of one iteration, whose request is the \<open>n\<close>-th call;
  \<open>settlePage\<close> is a page after its request has settled.
\<close>

definition targetOf :: "StoryboardData \<Rightarrow> Page \<Rightarrow> Page" where
  "targetOf currentData p =
     (case find (\<lambda>q. p_id q = p_id p) (pages currentData) of Some t \<Rightarrow> t | None \<Rightarrow> p)"

fun settleEffects :: "string \<Rightarrow> error + string \<Rightarrow> Effect list" where
  "settleEffects pageId (Inr url) = [AttachImage pageId url]"
| "settleEffects pageId (Inl err) = [ConsoleError err, ClearGenerating pageId]"

definition pageEffects :: "Services \<Rightarrow> StoryboardData \<Rightarrow> nat \<Rightarrow> Page \<Rightarrow> Effect list" where
  "pageEffects svc currentData n p =
     [Timeout 100, MarkGenerating (p_id p),
      GeneratePageImageCall (targetOf currentData p) (characters currentData)] @
     settleEffects (p_id p)
       (generatePageImageCall svc n (targetOf currentData p) (characters currentData))"

fun settlePage :: "error + string \<Rightarrow> Page \<Rightarrow> Page" where
  "settlePage (Inr url) p = p\<lparr>imageUrl := Some url, isGenerating := Some False\<rparr>"
| "settlePage (Inl err) p = p\<lparr>isGenerating := Some False\<rparr>"

section \<open>Specification predicates and sample inputs\<close>

text \<open>A service that answers every request with the same response.\<close>

definition replying :: "GenerateContentResponse \<Rightarrow> GenerateContent" where
  "replying response = (\<lambda>request. Inr response)"

text \<open>
  The condition of the specification "the response contains an inline image part", over
  every candidate of the response.
\<close>

definition hasInlineImage :: "GenerateContentResponse \<Rightarrow> bool" where
  "hasInlineImage response =
     list_ex (\<lambda>c. list_ex (\<lambda>p. inlineData p \<noteq> None) (content_parts c)) (candidates response)"

text \<open>A reply of the service that carries no candidate at all.\<close>

definition noCandidates :: GenerateContentResponse where
  "noCandidates = \<lparr>response_text = None, candidates = []\<rparr>"

text \<open>A page of one panel and a roster of one character, to run the definitions on.\<close>

definition page0 :: Page where
  "page0 = \<lparr>p_id = ''p1'', pageNumber = 1,
     scenes = [\<lparr>s_id = ''s1'', sceneNumber = 1, location = ''Shore'', timeOfDay = ''Dawn'',
                 action = ''A bottle washes up'', dialogue = None, visualPrompt = ''Wide shot of a beach'',
                 s_imageUrl = None, s_isGenerating = None\<rparr>],
     imageUrl = None, isGenerating = None, pageLayoutDescription = ''single''\<rparr>"
definition roster0 :: "Character list" where
  "roster0 = [\<lparr>c_id = ''c1'', c_name = ''Keeper'', c_appearance = ''Mannequin with hat''\<rparr>]"


text \<open>A reply whose first candidate holds a text part and then an inline image.\<close>

definition imageReply :: GenerateContentResponse where
  "imageReply =
     \<lparr>response_text = Some ''Here is the page.'',
      candidates = [\<lparr>content_parts =
        [\<lparr>part_text = Some ''Here is the page.'', inlineData = None\<rparr>,
         \<lparr>part_text = None, inlineData = Some \<lparr>blob_data = ''iVBORw0KGgo=''\<rparr>\<rparr>]\<rparr>]\<rparr>"

text \<open>
  The invariant of the specification on a storyboard, read on the parsed value: the
  number of pages times \<open>K\<close> is the requested panel count \<open>P * K\<close>, and every page has
  \<open>K\<close> scenes with \<open>scenes[i].sceneNumber = i + 1\<close>.
\<close>

definition pageHasGrid :: "int \<Rightarrow> json \<Rightarrow> bool" where
  "pageHasGrid K p =
     (case Option.bind (property ''scenes'' p) elements of
        None \<Rightarrow> False
      | Some ss \<Rightarrow>
          int (length ss) = K \<and>
          map (\<lambda>s. Option.bind (property ''sceneNumber'' s) integerValue) ss =
            map (\<lambda>i. Some (int i + 1)) [0..<length ss])"

definition gridInvariant :: "int \<Rightarrow> int \<Rightarrow> json \<Rightarrow> bool" where
  "gridInvariant P K j =
     (case Option.bind (property ''pages'' j) elements of
        None \<Rightarrow> False
      | Some ps \<Rightarrow> int (length ps) * K = P * K \<and> list_all (pageHasGrid K) ps)"

text \<open>Replies to run the text functions on: no text, an HTML error page, two storyboards.\<close>

definition blankReply :: GenerateContentResponse where
  "blankReply = \<lparr>response_text = None, candidates = []\<rparr>"

definition htmlReply :: GenerateContentResponse where
  "htmlReply = \<lparr>response_text = Some ''<html>Service unavailable</html>'', candidates = []\<rparr>"

definition seedIdea :: string where
  "seedIdea = ''A lighthouse keeper finds a message in a bottle''"

definition sceneText :: "string \<Rightarrow> string \<Rightarrow> string" where
  "sceneText ident number =
     ''{'' @ quoted ''id'' @ '':'' @ quoted ident @ '','' @
     quoted ''sceneNumber'' @ '':'' @ number @ '','' @
     quoted ''location'' @ '':'' @ quoted ''Shore'' @ '','' @
     quoted ''action'' @ '':'' @ quoted ''Waves'' @ '','' @
     quoted ''visualPrompt'' @ '':'' @ quoted ''Sea'' @ ''}''"

definition storyboardText :: "string \<Rightarrow> string" where
  "storyboardText sceneTexts =
     ''{'' @ quoted ''title'' @ '':'' @ quoted ''Bottle'' @ '','' @
     quoted ''characters'' @ '':[],'' @
     quoted ''pages'' @ '':[{'' @ quoted ''id'' @ '':'' @ quoted ''p1'' @ '','' @
     quoted ''pageNumber'' @ '':1,'' @
     quoted ''pageLayoutDescription'' @ '':'' @ quoted ''one row'' @ '','' @
     quoted ''scenes'' @ '':['' @ sceneTexts @ '']}]}''"

definition sceneJson :: "string \<Rightarrow> string \<Rightarrow> json" where
  "sceneJson ident number =
     JObject [(''id'', JString ident), (''sceneNumber'', JNumber number),
       (''location'', JString ''Shore''), (''action'', JString ''Waves''),
       (''visualPrompt'', JString ''Sea'')]"

definition storyboardJson :: "json list \<Rightarrow> json" where
  "storyboardJson sceneJsons =
     JObject [(''title'', JString ''Bottle''), (''characters'', JArray []),
       (''pages'', JArray [JObject [(''id'', JString ''p1''), (''pageNumber'', JNumber ''1''),
          (''pageLayoutDescription'', JString ''one row''), (''scenes'', JArray sceneJsons)]])]"

definition strayText :: string where
  "strayText = storyboardText (sceneText ''s1'' ''7'')"

definition gridText :: string where
  "gridText = storyboardText (sceneText ''s1'' ''1'' @ '', '' @ sceneText ''s2'' ''2'')"

definition strayReply :: GenerateContentResponse where
  "strayReply = \<lparr>response_text = Some strayText, candidates = []\<rparr>"

definition gridReply :: GenerateContentResponse where
  "gridReply = \<lparr>response_text = Some gridText, candidates = []\<rparr>"

text \<open>
  Sample inputs of the orchestrator: a second page, storyboards of one page, of two
  pages and of two pages under one identifier, services that fail, and a fresh state.
\<close>

definition page1 :: Page where
  "page1 = page0\<lparr>p_id := ''p2'', pageNumber := 2\<rparr>"

definition board :: "Page list \<Rightarrow> StoryboardData" where
  "board ps = \<lparr>title = ''Bottle'', characters = roster0, pages = ps\<rparr>"

definition sampleStory :: DevelopedStory where
  "sampleStory = \<lparr>story = ''A keeper and a bottle.'', screenplay = ''1. The bottle lands.''\<rparr>"

definition quotaError :: error where
  "quotaError = Error ''Quota exceeded''"



text \<open>Only the second request for an image is rejected; the other ones are served.\<close>

definition secondFails :: Services where
  "secondFails =
     \<lparr>developStoryConceptCall = (\<lambda>n idea k. Inr sampleStory),
      generateStoryboardCall = (\<lambda>n text p k. Inr (board [page0, page1])),
      generatePageImageCall =
        (\<lambda>n page cs. if n = 1 then Inl quotaError else Inr ''data:image/png;base64,AAAA'')\<rparr>"

definition freshApp :: App where
  "freshApp =
     \<lparr>step = InputStep, mode = Creative, input = '''', loading = False, developedStory = None,
      data = None, error = None, numPages = 5, numPanelsPerPage = 10, zoomedPage = None,
      editingSceneId = None, editBuffer = '''', effects = []\<rparr>"

definition showing :: "StoryboardData \<Rightarrow> App" where
  "showing d = freshApp\<lparr>step := StoryboardStep, data := Some d\<rparr>"

definition twins :: StoryboardData where
  "twins = board [page0, page0\<lparr>pageNumber := 2\<rparr>]"




section \<open>Properties of the JSON parser\<close>

text \<open>
  A parse uses at least one character of its text. The tests on the lengths in
  \<open>parse_elements\<close> and \<open>parse_members\<close> therefore never reject a parse: both functions
  satisfy their equations without them.
\<close>

lemma parse_chars_shorter: "parse_chars cs = Some (x, r) \<Longrightarrow> length r < length cs"
proof (induction cs arbitrary: x r rule: parse_chars.induct)
  case 1
  then show ?case by simp
next
  case (2 c cs)
  then show ?case
    by (fastforce split: if_splits list.splits option.splits)
qed

lemma parse_digits_shorter: "parse_digits s = Some (x, r) \<Longrightarrow> length r < length s"
proof -
  assume a: "parse_digits s = Some (x, r)"
  then have ne: "takeWhile is_digit s \<noteq> []" and r: "r = dropWhile is_digit s"
    by (auto simp: parse_digits_def split: if_splits)
  have "length (takeWhile is_digit s) + length (dropWhile is_digit s) = length s"
    by (metis length_append takeWhile_dropWhile_id)
  with ne r show ?thesis by (cases "takeWhile is_digit s") auto
qed

lemma parse_int_part_shorter: "parse_int_part s = Some (x, r) \<Longrightarrow> length r < length s"
  by (auto simp: parse_int_part_def split: list.splits if_splits dest: parse_digits_shorter)

lemma parse_frac_shorter: "parse_frac s = Some (x, r) \<Longrightarrow> length r \<le> length s"
  by (auto simp: parse_frac_def split: list.splits if_splits dest!: parse_digits_shorter)

lemma parse_exp_shorter: "parse_exp s = Some (x, r) \<Longrightarrow> length r \<le> length s"
  by (auto simp: parse_exp_def split: list.splits if_splits dest!: parse_digits_shorter)

lemma parse_number_shorter: "parse_number s = Some (x, r) \<Longrightarrow> length r < length s"
  by (auto simp: parse_number_def Let_def split: list.splits if_splits option.splits prod.splits
      dest!: parse_int_part_shorter parse_frac_shorter parse_exp_shorter)

lemma skip_ws_length: "length (skip_ws s) \<le> length s"
  by (simp add: skip_ws_def length_dropWhile_le)

lemma skip_ws_Cons_length: "skip_ws s = d # ds \<Longrightarrow> length ds < length s"
  using skip_ws_length[of s] by simp

lemma parse_shorter:
  "parse_value s = Some (v, r) \<Longrightarrow> length r < length s"
  "parse_elements s1 = Some (vs, r1) \<Longrightarrow> length r1 < length s1"
  "parse_members s2 = Some (kvs, r2) \<Longrightarrow> length r2 < length s2"
proof (induction s and s1 and s2 arbitrary: v r and vs r1 and kvs r2
    rule: parse_value_parse_elements_parse_members.induct)
  case (1 s)
  from "1.prems" have "\<exists>c cs. s = c # cs \<and>
      ((c = CHR ''{'' \<and> (\<exists>d ds. skip_ws cs = d # ds \<and>
          (r = ds \<or> (d \<noteq> CHR ''}'' \<and> (\<exists>kvs. parse_members (d # ds) = Some (kvs, r)))))) \<or>
       (c \<noteq> CHR ''{'' \<and> c = CHR ''['' \<and> (\<exists>d ds. skip_ws cs = d # ds \<and>
          (r = ds \<or> (d \<noteq> CHR '']'' \<and> (\<exists>vs. parse_elements (d # ds) = Some (vs, r)))))) \<or>
       length r < length s)"
    by (subst (asm) parse_value.simps)
      (auto split: list.splits if_splits dest!: parse_chars_shorter parse_number_shorter)
  then show ?case
  proof (elim exE conjE disjE)
    fix c cs d ds assume s: "s = c # cs" and ws: "skip_ws cs = d # ds" and r: "r = ds"
    have "length ds < length cs" using ws by (rule skip_ws_Cons_length)
    then show ?thesis unfolding s r by simp
  next
    fix c cs d ds kvs
    assume s: "s = c # cs" and c: "c = CHR ''{''" and ws: "skip_ws cs = d # ds"
      and d: "d \<noteq> CHR ''}''" and m: "parse_members (d # ds) = Some (kvs, r)"
    have "length r < length (d # ds)" using s c ws d m by (rule "1.IH"(1))
    moreover have "length ds < length cs" using ws by (rule skip_ws_Cons_length)
    ultimately show ?thesis unfolding s by simp
  next
    fix c cs d ds assume s: "s = c # cs" and ws: "skip_ws cs = d # ds" and r: "r = ds"
    have "length ds < length cs" using ws by (rule skip_ws_Cons_length)
    then show ?thesis unfolding s r by simp
  next
    fix c cs d ds vs
    assume s: "s = c # cs" and nb: "c \<noteq> CHR ''{''" and c: "c = CHR ''[''"
      and ws: "skip_ws cs = d # ds" and d: "d \<noteq> CHR '']''"
      and m: "parse_elements (d # ds) = Some (vs, r)"
    have "length r < length (d # ds)" using s nb c ws d m by (rule "1.IH"(2))
    moreover have "length ds < length cs" using ws by (rule skip_ws_Cons_length)
    ultimately show ?thesis unfolding s by simp
  next
    assume "length r < length s"
    then show ?thesis .
  qed
next
  case (2 s)
  from "2.prems" have "\<exists>v r d ds. parse_value s = Some (v, r) \<and> length r < length s \<and>
      skip_ws r = d # ds \<and>
      ((d = CHR '','' \<and> (\<exists>vs'. parse_elements (skip_ws ds) = Some (vs', r1))) \<or> r1 = ds)"
    by (subst (asm) parse_elements.simps) (auto split: option.splits if_splits list.splits)
  then show ?case
  proof (elim exE conjE disjE)
    fix v r d ds vs'
    assume pv: "parse_value s = Some (v, r)" and lt: "length r < length s"
      and ws: "skip_ws r = d # ds" and d: "d = CHR '',''"
      and pe: "parse_elements (skip_ws ds) = Some (vs', r1)"
    have "length r1 < length (skip_ws ds)" using pv refl lt ws d pe by (rule "2.IH"(2))
    moreover have "length ds < length r" using ws by (rule skip_ws_Cons_length)
    ultimately show ?thesis using skip_ws_length[of ds] lt by simp
  next
    fix v r d ds
    assume lt: "length r < length s" and ws: "skip_ws r = d # ds" and r1: "r1 = ds"
    have "length ds < length r" using ws by (rule skip_ws_Cons_length)
    then show ?thesis unfolding r1 using lt by simp
  qed
next
  case (3 s)
  from "3.prems" have "\<exists>q cs k ra d ds v r e es. s = q # cs \<and> q = CHR 0x22 \<and>
      parse_chars cs = Some (k, ra) \<and> length ra \<le> length cs \<and> skip_ws ra = d # ds \<and>
      d = CHR '':'' \<and> parse_value (skip_ws ds) = Some (v, r) \<and>
      length r < length (skip_ws ds) \<and> skip_ws r = e # es \<and>
      ((e = CHR '','' \<and> (\<exists>kvs'. parse_members (skip_ws es) = Some (kvs', r2))) \<or> r2 = es)"
    by (subst (asm) parse_members.simps) (auto split: option.splits if_splits list.splits)
  then show ?case
  proof (elim exE conjE disjE)
    fix q cs k ra d ds v r e es kvs'
    assume s: "s = q # cs" and q: "q = CHR 0x22"
      and pc: "parse_chars cs = Some (k, ra)" and le: "length ra \<le> length cs"
      and ws1: "skip_ws ra = d # ds" and d: "d = CHR '':''"
      and pv: "parse_value (skip_ws ds) = Some (v, r)" and lt: "length r < length (skip_ws ds)"
      and ws2: "skip_ws r = e # es" and e: "e = CHR '',''"
      and pm: "parse_members (skip_ws es) = Some (kvs', r2)"
    have "length r2 < length (skip_ws es)"
      using s q pc refl le ws1 d pv refl lt ws2 e pm by (rule "3.IH"(2))
    moreover have "length es < length r" using ws2 by (rule skip_ws_Cons_length)
    moreover have "length ds < length ra" using ws1 by (rule skip_ws_Cons_length)
    ultimately show ?thesis
      unfolding s using skip_ws_length[of es] skip_ws_length[of ds] lt le by simp
  next
    fix q cs k ra d ds v r e es
    assume s: "s = q # cs" and le: "length ra \<le> length cs"
      and ws1: "skip_ws ra = d # ds" and lt: "length r < length (skip_ws ds)"
      and ws2: "skip_ws r = e # es" and r2: "r2 = es"
    have "length es < length r" using ws2 by (rule skip_ws_Cons_length)
    moreover have "length ds < length ra" using ws1 by (rule skip_ws_Cons_length)
    ultimately show ?thesis
      unfolding s r2 using skip_ws_length[of ds] lt le by simp
  qed
qed

lemma parse_elements_unguarded:
  "parse_elements s =
     (case parse_value s of
        None \<Rightarrow> None
      | Some (v, r) \<Rightarrow>
          (case skip_ws r of
             [] \<Rightarrow> None
           | d # ds \<Rightarrow>
               if d = CHR '','' then map_option (apfst ((#) v)) (parse_elements (skip_ws ds))
               else if d = CHR '']'' then Some ([v], ds)
               else None))"
  by (subst parse_elements.simps) (auto split: option.splits dest: parse_shorter(1))

lemma parse_members_unguarded:
  "parse_members s =
     (case s of
        [] \<Rightarrow> None
      | q # cs \<Rightarrow>
          if q = CHR 0x22 then
            (case parse_chars cs of
               None \<Rightarrow> None
             | Some (k, r1) \<Rightarrow>
                 (case skip_ws r1 of
                    [] \<Rightarrow> None
                  | d # ds \<Rightarrow>
                      if d = CHR '':'' then
                        (case parse_value (skip_ws ds) of
                           None \<Rightarrow> None
                         | Some (v, r2) \<Rightarrow>
                             (case skip_ws r2 of
                                [] \<Rightarrow> None
                              | e # es \<Rightarrow>
                                  if e = CHR '','' then
                                    map_option (apfst ((#) (k, v))) (parse_members (skip_ws es))
                                  else if e = CHR ''}'' then Some ([(k, v)], es)
                                  else None))
                      else None))
          else None)"
  by (subst parse_members.simps)
    (auto split: option.splits list.splits dest: parse_shorter(1) parse_chars_shorter)

section \<open>Properties of the Page Illustrator\<close>

lemma style_mono:
  "sublist ''STYLE: Rough director's ink sketch. Stark black lines on white paper. No colors, no gray tones. High technical contrast.''
     styleLine"
  unfolding styleLine_def sublist_def
  by (intro exI[of _ "[]"] exI[of _ "'' ''"]) simp

lemma sublist_mid: "sublist x (a @ x @ b)"
  unfolding sublist_def by blast

lemma sublist_in_left: "sublist x a \<Longrightarrow> sublist x (a @ b)"
  by (metis sublist_append)
lemma sublist_in_right: "sublist x b \<Longrightarrow> sublist x (a @ b)"
  by (metis sublist_append)

lemma sublist_join: "x \<in> set xs \<Longrightarrow> sublist x (join sep xs)"
proof (induction sep xs rule: join.induct)
  case (3 sep a y ys)
  show ?case
  proof (cases "x = a")
    case True then show ?thesis by (simp add: sublist_mid[of x "[]", simplified])
  next
    case False
    with 3 have "sublist x (join sep (y # ys))" by simp
    then show ?thesis by (simp add: sublist_in_right)
  qed
qed simp_all

lemma sublist_embed: "sublist x m \<Longrightarrow> sublist x (a @ m @ b)"
  by (simp add: sublist_in_left sublist_in_right)

lemma fullPrompt_grid:
  "\<exists>a b. fullPrompt page allCharacters = a @ gridLine page @ b"
  unfolding fullPrompt_def by (metis append.assoc)

lemma fullPrompt_characters:
  "\<exists>a b. fullPrompt page allCharacters = a @ characterContext allCharacters @ b"
  unfolding fullPrompt_def by (metis append.assoc)

lemma fullPrompt_panels:
  "\<exists>a b. fullPrompt page allCharacters = a @ scenesPrompts page @ b"
  unfolding fullPrompt_def by (metis append.assoc)

lemma fullPrompt_style:
  "\<exists>a b. fullPrompt page allCharacters = a @ styleLine @ b"
  unfolding fullPrompt_def by (metis append.assoc)


lemma scanParts_find:
  "scanParts ps =
     (case List.find (\<lambda>p. inlineData p \<noteq> None) ps of
        None \<Rightarrow> []
      | Some p \<Rightarrow> ''data:image/png;base64,'' @ blob_data (the (inlineData p)))"
  by (induction ps) (auto split: option.splits)

lemma scanParts_empty_iff: "scanParts ps = [] \<longleftrightarrow> (\<forall>p \<in> set ps. inlineData p = None)"
  by (induction ps) (auto split: option.splits)

text \<open>
  Where the reply has a first candidate, the guard of the source works: no inline part
  among its parts gives the error \<open>Drafting system error.\<close>, and an empty string is
  never returned.
\<close>

lemma imageOfResponse_guard:
  "candidates response = c # cs \<Longrightarrow> \<forall>p \<in> set (content_parts c). inlineData p = None \<Longrightarrow>
   imageOfResponse response = Inl (Error ''Drafting system error.'')"
  by (simp add: imageOfResponse_def scanParts_empty_iff[symmetric])

lemma imageOfResponse_never_empty: "imageOfResponse response \<noteq> Inr []"
  by (auto simp: imageOfResponse_def Let_def split: list.splits)

text \<open>
  Claim C2. A response without an inline image part should make \<open>generatePageImage\<close>
  fail with its own "no image" error, \<open>Drafting system error.\<close> The reply without
  candidates has no inline image part, and there the call fails with the engine's
  TypeError of the unguarded read \<^verbatim>\<open>response.candidates[0].content\<close> instead.
\<close>

theorem generatePageImage_no_candidates:
  "\<not> hasInlineImage noCandidates \<and>
   generatePageImage (replying noCandidates) page allCharacters =
     Inl (TypeError ''Cannot read properties of undefined (reading 'content')'')"
  by (simp add: hasInlineImage_def noCandidates_def generatePageImage_def imageOfResponse_def
      replying_def)

text \<open>
  Claim C7. The composite prompt of \<open>generatePageImage\<close> states the panel count with the
  reading order (left to right, top to bottom), contains name and appearance of every
  character of the roster, contains for every panel its visual prompt followed by its
  action beat, and fixes the black-on-white, colourless sketch style.
\<close>

theorem fullPrompt_contents:
  "sublist (''GRID: '' @ toString (int (length (scenes page))) @
      '' panels, reading strictly LEFT-TO-RIGHT, TOP-TO-BOTTOM (row by row).'')
     (fullPrompt page allCharacters) \<and>
   (\<forall>c \<in> set allCharacters.
      sublist (c_name c @ '': '' @ c_appearance c) (fullPrompt page allCharacters)) \<and>
   (\<forall>s \<in> set (scenes page).
      sublist (''Panel '' @ toString (sceneNumber s) @ '': '' @ visualPrompt s @ ''. Beat: '' @ action s)
        (fullPrompt page allCharacters)) \<and>
   sublist ''STYLE: Rough director's ink sketch. Stark black lines on white paper. No colors, no gray tones. High technical contrast.''
     (fullPrompt page allCharacters)"
proof (intro conjI ballI)
  obtain a b where "fullPrompt page allCharacters = a @ gridLine page @ b"
    using fullPrompt_grid by blast
  then show "sublist (''GRID: '' @ toString (int (length (scenes page))) @
      '' panels, reading strictly LEFT-TO-RIGHT, TOP-TO-BOTTOM (row by row).'')
     (fullPrompt page allCharacters)"
    unfolding gridLine_def[symmetric] by (simp add: sublist_mid)
next
  fix c assume "c \<in> set allCharacters"
  then have "sublist (c_name c @ '': '' @ c_appearance c) (characterContext allCharacters)"
    unfolding characterContext_def by (intro sublist_join) auto
  moreover obtain a b where "fullPrompt page allCharacters = a @ characterContext allCharacters @ b"
    using fullPrompt_characters by blast
  ultimately show "sublist (c_name c @ '': '' @ c_appearance c) (fullPrompt page allCharacters)"
    by (simp add: sublist_embed)
next
  fix s assume "s \<in> set (scenes page)"
  then have "sublist (panelPrompt s) (scenesPrompts page)"
    unfolding scenesPrompts_def by (intro sublist_join) auto
  moreover obtain a b where "fullPrompt page allCharacters = a @ scenesPrompts page @ b"
    using fullPrompt_panels by blast
  ultimately show "sublist (''Panel '' @ toString (sceneNumber s) @ '': '' @ visualPrompt s @ ''. Beat: '' @ action s)
        (fullPrompt page allCharacters)"
    unfolding panelPrompt_def[symmetric] by (simp add: sublist_embed)
next
  obtain a b where "fullPrompt page allCharacters = a @ styleLine @ b"
    using fullPrompt_style by blast
  then show "sublist ''STYLE: Rough director's ink sketch. Stark black lines on white paper. No colors, no gray tones. High technical contrast.''
     (fullPrompt page allCharacters)"
    using style_mono by (simp add: sublist_embed)
qed

theorem fullPrompt_contents_witness:
  "sublist ''GRID: 1 panels, reading strictly LEFT-TO-RIGHT, TOP-TO-BOTTOM (row by row).''
     (fullPrompt page0 roster0) \<and>
   sublist ''Keeper: Mannequin with hat'' (fullPrompt page0 roster0) \<and>
   sublist ''Panel 1: Wide shot of a beach. Beat: A bottle washes up'' (fullPrompt page0 roster0) \<and>
   sublist ''STYLE: Rough director's ink sketch. Stark black lines on white paper. No colors, no gray tones. High technical contrast.''
     (fullPrompt page0 roster0)"
  using fullPrompt_contents[of page0 roster0]
  by (simp add: page0_def roster0_def toString_def digit_char_def digits.simps)

text \<open>
  Claim C10. When \<open>generatePageImage\<close> returns, its result is not empty: it is the prefix
  \<open>data:image/png;base64,\<close> followed by the data of the first part with inline data
  among the parts of the first candidate of the response.
\<close>

theorem generatePageImage_success:
  assumes "generatePageImage generateContent page allCharacters = Inr url"
  shows "url \<noteq> [] \<and>
    (\<exists>response c cs part b.
        generateContent (imageRequest page allCharacters) = Inr response \<and>
        candidates response = c # cs \<and>
        List.find (\<lambda>p. inlineData p \<noteq> None) (content_parts c) = Some part \<and>
        inlineData part = Some b \<and>
        url = ''data:image/png;base64,'' @ blob_data b)"
  using assms
  by (auto simp: generatePageImage_def imageOfResponse_def scanParts_find Let_def
      split: sum.splits list.splits option.splits if_splits dest: find_Some_iff[THEN iffD1])

theorem generatePageImage_success_witness:
  "generatePageImage (replying imageReply) page0 roster0 =
     Inr ''data:image/png;base64,iVBORw0KGgo='' \<and>
   List.find (\<lambda>p. inlineData p \<noteq> None) (content_parts (hd (candidates imageReply))) =
     Some \<lparr>part_text = None, inlineData = Some \<lparr>blob_data = ''iVBORw0KGgo=''\<rparr>\<rparr>"
proof -
  have run: "generatePageImage (replying imageReply) page0 roster0 =
      Inr ''data:image/png;base64,iVBORw0KGgo=''"
    by (simp add: generatePageImage_def imageOfResponse_def imageReply_def replying_def)
  from generatePageImage_success[OF run] show ?thesis
    using run by (auto simp: imageReply_def)
qed

section \<open>Properties of the Concept Developer and the Storyboard Structurer\<close>

lemma JSON_parse_empty_object: "JSON_parse ''{}'' = Some (JObject [])"
  by code_simp

lemma JSON_parse_html: "JSON_parse ''<html>Service unavailable</html>'' = None"
  by code_simp

lemma parseOrThrow_no_text:
  "response_text response = None \<or> response_text response = Some [] \<Longrightarrow>
   parseOrThrow (textOrEmptyObject response) = Inr (JObject [])"
  by (auto simp: parseOrThrow_def textOrEmptyObject_def JSON_parse_empty_object)

lemma parseOrThrow_malformed:
  "response_text response = Some t \<Longrightarrow> t \<noteq> [] \<Longrightarrow> JSON_parse t = None \<Longrightarrow>
   parseOrThrow (textOrEmptyObject response) = Inl (SyntaxError ''Unexpected token in JSON'')"
  by (simp add: parseOrThrow_def textOrEmptyObject_def)

text \<open>
  Claim C1, as stated: a response whose body fails to parse makes both functions return
  an empty object without throwing. It fails: the body of \<open>htmlReply\<close> does not parse,
  and both functions throw the SyntaxError of \<^verbatim>\<open>JSON.parse\<close>.
\<close>

theorem unparseable_body_throws:
  "response_text htmlReply = Some ''<html>Service unavailable</html>'' \<and>
   JSON_parse ''<html>Service unavailable</html>'' = None \<and>
   developStoryConcept (replying htmlReply) seedIdea 20 =
     Inl (SyntaxError ''Unexpected token in JSON'') \<and>
   generateStoryboardFromText (replying htmlReply) seedIdea 5 4 =
     Inl (SyntaxError ''Unexpected token in JSON'')"
  by (simp add: developStoryConcept_def generateStoryboardFromText_def replying_def
      parseOrThrow_def textOrEmptyObject_def htmlReply_def JSON_parse_html)

text \<open>
  Claim C1, amended. When the response carries no text (absent, or the empty string),
  both functions return the empty object and do not throw. When it carries a text and
  the text fails to parse, both throw the SyntaxError of \<^verbatim>\<open>JSON.parse\<close> to their
  caller.
\<close>

theorem text_functions_on_parse_failure:
  "(generateContent (conceptRequest idea targetPanels) = Inr response \<longrightarrow>
      (response_text response = None \<or> response_text response = Some [] \<longrightarrow>
         developStoryConcept generateContent idea targetPanels = Inr (JObject [])) \<and>
      (\<forall>t. response_text response = Some t \<and> t \<noteq> [] \<and> JSON_parse t = None \<longrightarrow>
         developStoryConcept generateContent idea targetPanels =
           Inl (SyntaxError ''Unexpected token in JSON''))) \<and>
   (generateContent (storyboardRequest text P K) = Inr response' \<longrightarrow>
      (response_text response' = None \<or> response_text response' = Some [] \<longrightarrow>
         generateStoryboardFromText generateContent text P K =
           Inr (JObject [])) \<and>
      (\<forall>t. response_text response' = Some t \<and> t \<noteq> [] \<and> JSON_parse t = None \<longrightarrow>
         generateStoryboardFromText generateContent text P K =
           Inl (SyntaxError ''Unexpected token in JSON'')))"
  using parseOrThrow_no_text parseOrThrow_malformed
  by (simp add: developStoryConcept_def generateStoryboardFromText_def)

theorem text_functions_on_parse_failure_witness:
  "developStoryConcept (replying blankReply) seedIdea 20 = Inr (JObject []) \<and>
   generateStoryboardFromText (replying blankReply) seedIdea 5 4 = Inr (JObject []) \<and>
   developStoryConcept (replying htmlReply) seedIdea 20 =
     Inl (SyntaxError ''Unexpected token in JSON'') \<and>
   generateStoryboardFromText (replying htmlReply) seedIdea 5 4 =
     Inl (SyntaxError ''Unexpected token in JSON'')"
proof -
  have blank: "replying blankReply (conceptRequest seedIdea 20) = Inr blankReply"
    "replying blankReply (storyboardRequest seedIdea 5 4) = Inr blankReply"
    "response_text blankReply = None"
    by (simp_all add: replying_def blankReply_def)
  have html: "replying htmlReply (conceptRequest seedIdea 20) = Inr htmlReply"
    "replying htmlReply (storyboardRequest seedIdea 5 4) = Inr htmlReply"
    "response_text htmlReply = Some ''<html>Service unavailable</html>''"
    by (simp_all add: replying_def htmlReply_def)
  from text_functions_on_parse_failure
    [of "replying blankReply" seedIdea 20 blankReply seedIdea 5 4 blankReply]
  have "developStoryConcept (replying blankReply) seedIdea 20 = Inr (JObject [])"
    "generateStoryboardFromText (replying blankReply) seedIdea 5 4 = Inr (JObject [])"
    using blank by simp_all
  moreover from text_functions_on_parse_failure
    [of "replying htmlReply" seedIdea 20 htmlReply seedIdea 5 4 htmlReply]
  have "developStoryConcept (replying htmlReply) seedIdea 20 =
      Inl (SyntaxError ''Unexpected token in JSON'')"
    "generateStoryboardFromText (replying htmlReply) seedIdea 5 4 =
      Inl (SyntaxError ''Unexpected token in JSON'')"
    using html JSON_parse_html by simp_all
  ultimately show ?thesis by simp
qed

lemma parse_strayReply:
  "JSON_parse strayText =
     Some (storyboardJson [sceneJson ''s1'' ''7''])"
  by code_simp

lemma parse_gridReply:
  "JSON_parse gridText =
     Some (storyboardJson [sceneJson ''s1'' ''1'', sceneJson ''s2'' ''2''])"
  by code_simp

lemma fixture_texts_not_empty: "strayText \<noteq> []" "gridText \<noteq> []"
  by (simp_all add: strayText_def gridText_def storyboardText_def)

text \<open>
  Claim C6, as stated: every storyboard that the Storyboard Structurer produces for a
  request of \<open>P\<close> pages and \<open>K\<close> panels has \<open>K\<close> scenes numbered from 1 on every page,
  and pages times \<open>K\<close> is the requested count. It fails: asked for 5 pages of 4 panels,
  the function returns the service's storyboard of one page with one scene numbered 7.
\<close>

theorem structurer_returns_stray_grid:
  "generateStoryboardFromText (replying strayReply) seedIdea 5 4 =
     Inr (storyboardJson [sceneJson ''s1'' ''7'']) \<and>
   \<not> gridInvariant 5 4 (storyboardJson [sceneJson ''s1'' ''7''])"
proof
  show "generateStoryboardFromText (replying strayReply) seedIdea 5 4 =
      Inr (storyboardJson [sceneJson ''s1'' ''7''])"
    by (simp add: generateStoryboardFromText_def replying_def strayReply_def parseOrThrow_def
        textOrEmptyObject_def fixture_texts_not_empty parse_strayReply)
  show "\<not> gridInvariant 5 4 (storyboardJson [sceneJson ''s1'' ''7''])"
    by code_simp
qed

text \<open>
  Claim C6, amended. The Storyboard Structurer returns the value that the text of the
  service's response parses to, and checks nothing: its result has the invariant for
  \<open>P\<close> and \<open>K\<close> exactly when the parsed response has it, and the same response gives the
  same result for any other page and panel counts.
\<close>

theorem structurer_returns_parsed_response:
  assumes "generateContent (storyboardRequest text P K) = Inr response"
    and "generateStoryboardFromText generateContent text P K = Inr j"
  shows "JSON_parse (textOrEmptyObject response) = Some j \<and>
    (gridInvariant P K j \<longleftrightarrow>
       (case JSON_parse (textOrEmptyObject response) of
          None \<Rightarrow> False
        | Some v \<Rightarrow> gridInvariant P K v)) \<and>
    (\<forall>P' K'. generateContent (storyboardRequest text P' K') = Inr response \<longrightarrow>
       generateStoryboardFromText generateContent text P' K' = Inr j)"
  using assms
  by (auto simp: generateStoryboardFromText_def parseOrThrow_def split: option.splits)

theorem structurer_returns_parsed_response_witness:
  "generateStoryboardFromText (replying gridReply) seedIdea 1 2 =
     Inr (storyboardJson [sceneJson ''s1'' ''1'', sceneJson ''s2'' ''2'']) \<and>
   JSON_parse (textOrEmptyObject gridReply) =
     Some (storyboardJson [sceneJson ''s1'' ''1'', sceneJson ''s2'' ''2'']) \<and>
   gridInvariant 1 2 (storyboardJson [sceneJson ''s1'' ''1'', sceneJson ''s2'' ''2'']) \<and>
   generateStoryboardFromText (replying gridReply) seedIdea 5 4 =
     Inr (storyboardJson [sceneJson ''s1'' ''1'', sceneJson ''s2'' ''2''])"
proof -
  have call: "replying gridReply (storyboardRequest seedIdea 1 2) = Inr gridReply"
    "replying gridReply (storyboardRequest seedIdea 5 4) = Inr gridReply"
    by (simp_all add: replying_def)
  have run: "generateStoryboardFromText (replying gridReply) seedIdea 1 2 =
      Inr (storyboardJson [sceneJson ''s1'' ''1'', sceneJson ''s2'' ''2''])"
    by (simp add: generateStoryboardFromText_def replying_def gridReply_def parseOrThrow_def
        textOrEmptyObject_def fixture_texts_not_empty parse_gridReply)
  have grid: "gridInvariant 1 2 (storyboardJson [sceneJson ''s1'' ''1'', sceneJson ''s2'' ''2''])"
    by code_simp
  from structurer_returns_parsed_response[OF call(1) run] show ?thesis
    using run grid call(2) by blast
qed

section \<open>Properties of the orchestrator\<close>

lemma emit_fields [simp]:
  "effects (emit e st) = effects st @ [e]" "data (emit e st) = data st"
  "error (emit e st) = error st" "loading (emit e st) = loading st"
  by (simp_all add: emit_def)

lemma setPages_fields [simp]:
  "effects (setPages f st) = effects st" "error (setPages f st) = error st"
  "loading (setPages f st) = loading st"
  by (simp_all add: setPages_def)

lemma callsIssued_append [simp]: "callsIssued (es @ fs) = callsIssued es + callsIssued fs"
  by (simp add: callsIssued_def)

lemma callsIssued_list [simp]:
  "callsIssued (e # es) = (if isCall e then 1 else 0) + callsIssued es" "callsIssued [] = 0"
  by (simp_all add: callsIssued_def)

lemma callsIssued_settleEffects [simp]: "callsIssued (settleEffects pageId outcome) = 0"
  by (cases outcome) (simp_all add: callsIssued_def)

subsection \<open>Starting a production\<close>





subsection \<open>Editing a panel\<close>

lemma saveEdit_guard:
  "editingSceneId st = None \<or> editingSceneId st = Some [] \<or> data st = None \<Longrightarrow> saveEdit st = st"
  by (auto simp: saveEdit_def split: option.splits)



subsection \<open>Failures of the generation calls\<close>

lemma handleGeneratePage_error [simp]:
  "error (handleGeneratePage svc pageId currentData st) = error st"
  by (auto simp: handleGeneratePage_def Let_def split: option.splits sum.splits)

lemma renderPages_error [simp]: "error (renderPages svc cd ps st) = error st"
  by (induction ps arbitrary: st) simp_all

lemma messageOr_quota [simp]: "messageOr quotaError fallback = ''Quota exceeded''"
  by (simp add: messageOr_def quotaError_def)




subsection \<open>The illustration loop\<close>

lemma find_page_in_board:
  "p \<in> set (pages cd) \<Longrightarrow> \<exists>t. find (\<lambda>q. p_id q = p_id p) (pages cd) = Some t"
  by (cases "find (\<lambda>q. p_id q = p_id p) (pages cd)") (auto simp: find_None_iff)

lemma handleGeneratePage_effects:
  assumes "p \<in> set (pages cd)"
  shows "effects (handleGeneratePage svc (p_id p) (Some cd) (emit (Timeout 100) st)) =
     effects st @ pageEffects svc cd (callsIssued (effects st)) p"
proof -
  from assms obtain t where t: "find (\<lambda>q. p_id q = p_id p) (pages cd) = Some t"
    using find_page_in_board by blast
  show ?thesis
    by (cases "generatePageImageCall svc (callsIssued (effects st)) t (characters cd)")
      (simp_all add: handleGeneratePage_def pageEffects_def targetOf_def t Let_def)
qed

lemma callsIssued_pageEffects [simp]: "callsIssued (pageEffects svc cd n p) = 1"
  by (simp add: pageEffects_def)



lemma targetOf_distinct:
  assumes "distinct (map p_id (pages cd))" and "p \<in> set (pages cd)"
  shows "targetOf cd p = p"
proof -
  from assms(2) obtain t where t: "find (\<lambda>q. p_id q = p_id p) (pages cd) = Some t"
    using find_page_in_board by blast
  then have "t \<in> set (pages cd)" "p_id t = p_id p"
    by (auto simp: find_Some_iff)
  with assms have "t = p"
    by (meson distinct_map inj_onD)
  with t show ?thesis by (simp add: targetOf_def)
qed

lemma distinct_sample: "distinct (map p_id (pages (board [page0, page1])))"
  by (simp add: board_def page0_def page1_def)

lemma secondFails_calls:
  "generatePageImageCall secondFails 0 p cs = Inr ''data:image/png;base64,AAAA''"
  "generatePageImageCall secondFails 1 p cs = Inl quotaError"
  "generatePageImageCall secondFails (Suc 0) p cs = Inl quotaError"
  by (simp_all add: secondFails_def)



lemma settlePage_id [simp]: "p_id (settlePage outcome q) = p_id q"
  by (cases outcome) simp_all

lemma handleGeneratePage_data:
  assumes "p \<in> set (pages cd)"
  shows "data (handleGeneratePage svc (p_id p) (Some cd) (emit (Timeout 100) st)) =
     map_option (\<lambda>d. d\<lparr>pages :=
        map (\<lambda>q. if p_id q = p_id p
                 then settlePage (generatePageImageCall svc (callsIssued (effects st))
                        (targetOf cd p) (characters cd)) q
                 else q) (pages d)\<rparr>) (data st)"
proof -
  from assms obtain t where t: "find (\<lambda>q. p_id q = p_id p) (pages cd) = Some t"
    using find_page_in_board by blast
  show ?thesis
    by (cases "generatePageImageCall svc (callsIssued (effects st)) t (characters cd)";
        cases "data st")
      (simp_all add: handleGeneratePage_def targetOf_def t Let_def setPages_def emit_def
        markPage_def attachPage_def clearPage_def comp_def)
qed

lemma same_ids_length: "map p_id ys = map p_id xs \<Longrightarrow> length ys = length xs"
  by (rule map_eq_imp_length_eq)

lemma same_ids_nth:
  assumes "map p_id ys = map p_id xs" and "i < length xs"
  shows "p_id (ys ! i) = p_id (xs ! i)"
proof -
  have len: "length ys = length xs" using assms(1) by (rule same_ids_length)
  have "map p_id ys ! i = map p_id xs ! i" by (simp only: assms(1))
  then show ?thesis using assms(2) len by simp
qed

lemma distinct_ids_nth:
  assumes "distinct (map p_id xs)" and "i < length xs" and "k < length xs"
  shows "p_id (xs ! i) = p_id (xs ! k) \<longleftrightarrow> i = k"
  using nth_eq_iff_index_eq[OF assms(1), of i k] assms(2,3) by simp

lemma map_by_id_update:
  assumes "distinct (map p_id xs)" and "map p_id ys = map p_id xs" and "k < length xs"
  shows "map (\<lambda>q. if p_id q = p_id (xs ! k) then f q else q) ys = ys[k := f (ys ! k)]"
proof (rule nth_equalityI)
  show "length (map (\<lambda>q. if p_id q = p_id (xs ! k) then f q else q) ys) = length (ys[k := f (ys ! k)])"
    by simp
next
  fix i assume "i < length (map (\<lambda>q. if p_id q = p_id (xs ! k) then f q else q) ys)"
  then have i: "i < length ys" by simp
  have len: "length ys = length xs" using assms(2) by (rule same_ids_length)
  have "p_id (ys ! i) = p_id (xs ! i)"
    using same_ids_nth[OF assms(2), of i] i len by simp
  then have iff: "p_id (ys ! i) = p_id (xs ! k) \<longleftrightarrow> i = k"
    using distinct_ids_nth[OF assms(1) _ assms(3), of i] i len by simp
  show "map (\<lambda>q. if p_id q = p_id (xs ! k) then f q else q) ys ! i = ys[k := f (ys ! k)] ! i"
  proof (cases "i = k")
    case True
    then show ?thesis using i iff by simp
  next
    case False
    then show ?thesis using i iff by simp
  qed
qed

lemma renderPages_data:
  assumes dist: "distinct (map p_id (pages cd))"
  shows "pages cd = pre @ ps \<Longrightarrow> data st = Some d \<Longrightarrow> map p_id (pages d) = map p_id (pages cd) \<Longrightarrow>
    \<exists>d'. data (renderPages svc cd ps st) = Some d' \<and>
      title d' = title d \<and> characters d' = characters d \<and>
      length (pages d') = length (pages cd) \<and>
      (\<forall>i < length (pages cd).
         pages d' ! i =
           (if i < length pre then pages d ! i
            else settlePage (generatePageImageCall svc (callsIssued (effects st) + (i - length pre))
                   (pages cd ! i) (characters cd)) (pages d ! i)))"
proof (induction ps arbitrary: pre st d)
  case Nil
  have "length (pages d) = length (pages cd)" using Nil(3) by (rule same_ids_length)
  then show ?case using Nil(1,2) by simp
next
  case (Cons p ps)
  let ?k = "length pre"
  let ?c = "callsIssued (effects st)"
  let ?o = "generatePageImageCall svc ?c p (characters cd)"
  let ?st' = "handleGeneratePage svc (p_id p) (Some cd) (emit (Timeout 100) st)"
  let ?d1 = "d\<lparr>pages := (pages d)[?k := settlePage ?o (pages d ! ?k)]\<rparr>"
  from Cons.prems(1) have k: "?k < length (pages cd)" and pk: "pages cd ! ?k = p"
    and p: "p \<in> set (pages cd)"
    by simp_all
  have tgt: "targetOf cd p = p" using dist p by (rule targetOf_distinct)
  have upd: "map (\<lambda>q. if p_id q = p_id p then settlePage ?o q else q) (pages d) =
      (pages d)[?k := settlePage ?o (pages d ! ?k)]"
    using map_by_id_update[OF dist Cons.prems(3) k, of "settlePage ?o"] pk by simp
  have data1: "data ?st' = Some ?d1"
    by (simp add: handleGeneratePage_data[OF p, of svc st] tgt upd Cons.prems(2)
        cong del: if_weak_cong)
  have "map p_id ((pages d)[?k := settlePage ?o (pages d ! ?k)]) = map p_id (pages d)"
  proof (rule nth_equalityI)
    fix i assume "i < length (map p_id ((pages d)[?k := settlePage ?o (pages d ! ?k)]))"
    then have "i < length (pages d)" by simp
    then show "map p_id ((pages d)[?k := settlePage ?o (pages d ! ?k)]) ! i = map p_id (pages d) ! i"
      by (cases "i = ?k") simp_all
  qed simp
  then have ids1: "map p_id (pages ?d1) = map p_id (pages cd)"
    using Cons.prems(3) by simp
  have calls1: "callsIssued (effects ?st') = Suc ?c"
    using handleGeneratePage_effects[OF p, of svc st] by simp
  have split: "pages cd = (pre @ [p]) @ ps" using Cons.prems(1) by simp
  from Cons.IH[OF split data1 ids1] obtain d' where
    IH: "data (renderPages svc cd ps ?st') = Some d' \<and>
      title d' = title ?d1 \<and> characters d' = characters ?d1 \<and>
      length (pages d') = length (pages cd) \<and>
      (\<forall>i < length (pages cd).
         pages d' ! i =
           (if i < length (pre @ [p]) then pages ?d1 ! i
            else settlePage (generatePageImageCall svc (callsIssued (effects ?st') + (i - length (pre @ [p])))
                   (pages cd ! i) (characters cd)) (pages ?d1 ! i)))" ..
  then have d': "data (renderPages svc cd ps ?st') = Some d'"
      "title d' = title d" "characters d' = characters d"
      "length (pages d') = length (pages cd)"
    by simp_all
  from IH have nth: "\<And>i. i < length (pages cd) \<Longrightarrow>
         pages d' ! i =
           (if i < Suc ?k then pages ?d1 ! i
            else settlePage (generatePageImageCall svc (Suc ?c + (i - Suc ?k))
                   (pages cd ! i) (characters cd)) (pages ?d1 ! i))"
    unfolding calls1 by simp
  have lenD: "length (pages d) = length (pages cd)"
    using Cons.prems(3) by (rule same_ids_length)
  have final: "\<forall>i < length (pages cd).
         pages d' ! i =
           (if i < ?k then pages d ! i
            else settlePage (generatePageImageCall svc (?c + (i - ?k))
                   (pages cd ! i) (characters cd)) (pages d ! i))"
  proof (intro allI impI)
    fix i assume i: "i < length (pages cd)"
    consider "i < ?k" | "i = ?k" | "?k < i" by linarith
    then show "pages d' ! i =
           (if i < ?k then pages d ! i
            else settlePage (generatePageImageCall svc (?c + (i - ?k))
                   (pages cd ! i) (characters cd)) (pages d ! i))"
    proof cases
      case 1
      then show ?thesis using nth[OF i] by simp
    next
      case 2
      then show ?thesis using nth[OF i] pk lenD k by simp
    next
      case 3
      then have "Suc ?c + (i - Suc ?k) = ?c + (i - ?k)" by simp
      then show ?thesis using nth[OF i] 3 by simp
    qed
  qed
  have unfold: "renderPages svc cd (p # ps) st = renderPages svc cd ps ?st'"
    by simp
  show ?case
    unfolding unfold by (rule exI[of _ d'], intro conjI) (rule d' final)+
qed

lemma renderPages_calls:
  "set ps \<subseteq> set (pages cd) \<Longrightarrow>
   callsIssued (effects (renderPages svc cd ps st)) = callsIssued (effects st) + length ps"
  by (induction ps arbitrary: st) (simp_all add: handleGeneratePage_effects)

text \<open>
  Claim C3, as stated: in the loop, a page whose illustration call fails has its flag
  cleared and is left without an image. It fails for two pages under one identifier:
  the first call succeeds and attaches its image to both pages, the second call (the one
  of the second page) fails, and the second page keeps the image.
\<close>

theorem twin_page_keeps_image:
  "generatePageImageCall secondFails 1 page0 roster0 = Inl quotaError \<and>
   effects (renderAllPagesSequentially secondFails twins (showing twins)) =
     [Timeout 100, MarkGenerating ''p1'', GeneratePageImageCall page0 roster0,
      AttachImage ''p1'' ''data:image/png;base64,AAAA'',
      Timeout 100, MarkGenerating ''p1'', GeneratePageImageCall page0 roster0,
      ConsoleError quotaError, ClearGenerating ''p1''] \<and>
   data (renderAllPagesSequentially secondFails twins (showing twins)) =
     Some (board
       [page0\<lparr>imageUrl := Some ''data:image/png;base64,AAAA'', isGenerating := Some False\<rparr>,
        page0\<lparr>pageNumber := 2, imageUrl := Some ''data:image/png;base64,AAAA'',
          isGenerating := Some False\<rparr>])"
  by (simp add: renderAllPagesSequentially_def handleGeneratePage_def twins_def board_def
      showing_def freshApp_def emit_def setPages_def markPage_def attachPage_def clearPage_def
      secondFails_calls page0_def Let_def callsIssued_def)

text \<open>
  Claim C3, amended. When the identifiers of the pages are pairwise distinct, a run of
  the loop on the displayed storyboard ends with every page out of progress (flag
  \<open>false\<close>); a page whose call failed keeps the image field it had before the loop (none,
  for a new storyboard), a page whose call succeeded has the returned image; and one
  request has been issued for every page, whichever of them failed.
\<close>

theorem illustration_loop_isolation:
  assumes "data st = Some cd" and "distinct (map p_id (pages cd))"
  shows "\<exists>d'. data (renderAllPagesSequentially svc cd st) = Some d' \<and>
     length (pages d') = length (pages cd) \<and>
     (\<forall>i < length (pages cd).
        isGenerating (pages d' ! i) = Some False \<and>
        (case generatePageImageCall svc (callsIssued (effects st) + i) (pages cd ! i) (characters cd) of
           Inl err \<Rightarrow> imageUrl (pages d' ! i) = imageUrl (pages cd ! i)
         | Inr url \<Rightarrow> imageUrl (pages d' ! i) = Some url)) \<and>
     callsIssued (effects (renderAllPagesSequentially svc cd st)) =
       callsIssued (effects st) + length (pages cd)"
proof -
  from renderPages_data[OF assms(2), of "[]" "pages cd" st cd svc] assms(1)
  obtain d' where d': "data (renderPages svc cd (pages cd) st) = Some d'"
    "length (pages d') = length (pages cd)"
    and nth: "\<And>i. i < length (pages cd) \<Longrightarrow>
       pages d' ! i =
         settlePage (generatePageImageCall svc (callsIssued (effects st) + i) (pages cd ! i)
           (characters cd)) (pages cd ! i)"
    by auto
  have "\<forall>i < length (pages cd).
        isGenerating (pages d' ! i) = Some False \<and>
        (case generatePageImageCall svc (callsIssued (effects st) + i) (pages cd ! i) (characters cd) of
           Inl err \<Rightarrow> imageUrl (pages d' ! i) = imageUrl (pages cd ! i)
         | Inr url \<Rightarrow> imageUrl (pages d' ! i) = Some url)"
  proof (intro allI impI)
    fix i assume i: "i < length (pages cd)"
    show "isGenerating (pages d' ! i) = Some False \<and>
        (case generatePageImageCall svc (callsIssued (effects st) + i) (pages cd ! i) (characters cd) of
           Inl err \<Rightarrow> imageUrl (pages d' ! i) = imageUrl (pages cd ! i)
         | Inr url \<Rightarrow> imageUrl (pages d' ! i) = Some url)"
      unfolding nth[OF i]
      by (cases "generatePageImageCall svc (callsIssued (effects st) + i) (pages cd ! i) (characters cd)")
        simp_all
  qed
  moreover have "callsIssued (effects (renderPages svc cd (pages cd) st)) =
      callsIssued (effects st) + length (pages cd)"
    by (rule renderPages_calls) simp
  ultimately show ?thesis
    unfolding renderAllPagesSequentially_def using d' by blast
qed

theorem illustration_loop_isolation_witness:
  "\<exists>d'. data (renderAllPagesSequentially secondFails (board [page0, page1])
            (showing (board [page0, page1]))) = Some d' \<and>
     length (pages d') = 2 \<and>
     imageUrl (pages d' ! 0) = Some ''data:image/png;base64,AAAA'' \<and>
     isGenerating (pages d' ! 0) = Some False \<and>
     imageUrl (pages d' ! 1) = None \<and>
     isGenerating (pages d' ! 1) = Some False"
proof -
  have start: "data (showing (board [page0, page1])) = Some (board [page0, page1])"
    by (simp add: showing_def)
  have none: "callsIssued (effects (showing (board [page0, page1]))) = 0"
    by (simp add: showing_def freshApp_def)
  from illustration_loop_isolation[OF start distinct_sample, of secondFails]
  obtain d' where d': "data (renderAllPagesSequentially secondFails (board [page0, page1])
            (showing (board [page0, page1]))) = Some d'"
    "length (pages d') = length (pages (board [page0, page1]))"
    and each: "\<forall>i < length (pages (board [page0, page1])).
        isGenerating (pages d' ! i) = Some False \<and>
        (case generatePageImageCall secondFails
                (callsIssued (effects (showing (board [page0, page1]))) + i)
                (pages (board [page0, page1]) ! i) (characters (board [page0, page1])) of
           Inl err \<Rightarrow> imageUrl (pages d' ! i) = imageUrl (pages (board [page0, page1]) ! i)
         | Inr url \<Rightarrow> imageUrl (pages d' ! i) = Some url)"
    by blast
  have sample: "length (pages (board [page0, page1])) = 2"
    "pages (board [page0, page1]) ! 0 = page0" "pages (board [page0, page1]) ! 1 = page1"
    "imageUrl page0 = None" "imageUrl page1 = None"
    by (simp_all add: board_def page1_def page0_def)
  from each[rule_format, of 0] each[rule_format, of 1]
  have "imageUrl (pages d' ! 0) = Some ''data:image/png;base64,AAAA''"
    "isGenerating (pages d' ! 0) = Some False"
    "imageUrl (pages d' ! 1) = None" "isGenerating (pages d' ! 1) = Some False"
    unfolding none sample by (simp_all add: secondFails_calls)
  with d' show ?thesis unfolding sample by blast
qed

end
